theory Spec2Isabelle
  imports Main
begin

section \<open>The resilient fetch of the manga aggregator\<close>

text \<open>
  The server defines two helpers in front of every outbound request:
  \<^verbatim>\<open>fetchWithTimeout(url, options = {}, timeout = 10000)\<close>, one attempt guarded by a
  timer that aborts it, and \<^verbatim>\<open>fetchWithRetry(url, options = {}, retries = 3)\<close>, the
  loop around it. Both are asynchronous and talk to the network, so the embedding makes
  the network a parameter and the effects a trace:
  \<^item> the transport is a function that says how the \<open>i\<close>-th call of \<^verbatim>\<open>fetch\<close> of one
    logical call behaves, given the address and the options it receives;
  \<^item> time is counted in milliseconds, as the arguments of \<^verbatim>\<open>setTimeout\<close> are;
  \<^item> every effect of the two helpers (arming and clearing the timer, calling
    \<^verbatim>\<open>fetch\<close>, waiting, aborting, logging, sleeping) is an event appended to a trace;
  \<^item> a \<^verbatim>\<open>throw\<close> is the left injection of the result, a \<^verbatim>\<open>return\<close> the right one.
\<close>

subsection \<open>Data\<close>

text \<open>
  An options object is an ordered list of properties. The values the helpers and the call
  sites use are a header set (itself ordered), a body and an abort signal, named by the
  controller it belongs to.
\<close>

datatype opt_value =
    HeaderSet "(string \<times> string) list"
  | Payload string
  | AbortSignal nat
  | Other string

type_synonym options = "(string \<times> opt_value) list"

text \<open>The part of a response the helpers read: \<^verbatim>\<open>response.ok\<close> and \<^verbatim>\<open>response.status\<close>.\<close>

record response =
  ok :: bool
  status :: int
  body :: string

text \<open>
  What can be thrown: the rejection of an aborted \<^verbatim>\<open>fetch\<close>, a rejection of
  \<^verbatim>\<open>fetch\<close> for a reason of its own (with its message), and the
  \<^verbatim>\<open>new Error(message)\<close> of the retry loop.
\<close>

datatype js_error =
    AbortError
  | FetchError string
  | Error string

text \<open>
  How one call of \<^verbatim>\<open>fetch\<close> behaves when nobody aborts it: it resolves with a response
  after some milliseconds, rejects with a message after some milliseconds, or never
  settles. An aborted call rejects with \<open>AbortError\<close> at once; that is the behaviour of
  the \<^verbatim>\<open>node-fetch\<close> package the server imports.
\<close>

datatype behaviour =
    Responds nat response
  | Rejects nat string
  | Hangs

type_synonym transport = "nat \<Rightarrow> string \<Rightarrow> options \<Rightarrow> behaviour"

datatype event =
    TimerSet nat nat
  | FetchCall string options
  | Elapsed nat
  | Abort nat
  | ClearTimeout nat
  | ConsoleLog string
  | Sleep nat

subsection \<open>Printing numbers\<close>

text \<open>Template literals print an integral number in decimal.\<close>

function show_nat :: "nat \<Rightarrow> string" where
  "show_nat n =
     (if n < 10 then [''0123456789'' ! n]
      else show_nat (n div 10) @ [''0123456789'' ! (n mod 10)])"
  by pat_completeness auto
termination
  by (relation "measure id") auto

declare show_nat.simps [simp del]

definition show_int :: "int \<Rightarrow> string" where
  "show_int k = (if k < 0 then CHR ''-'' # show_nat (nat (- k)) else show_nat (nat k))"

subsection \<open>One attempt: \<^verbatim>\<open>fetchWithTimeout\<close>\<close>

text \<open>A parameter with a default takes it when the argument is missing or undefined.\<close>

definition default_arg :: "'a \<Rightarrow> 'a option \<Rightarrow> 'a" where
  "default_arg d a = (case a of None \<Rightarrow> d | Some v \<Rightarrow> v)"

text \<open>
  Setting a property of an object keeps the place of a property that is there and
  appends one that is not.
\<close>

fun set_prop :: "string \<Rightarrow> opt_value \<Rightarrow> options \<Rightarrow> options" where
  "set_prop k v [] = [(k, v)]"
| "set_prop k v (p # ps) = (if fst p = k then (k, v) # ps else p # set_prop k v ps)"

text \<open>\<^verbatim>\<open>{ ...options, signal: controller.signal }\<close>, for the controller \<open>c\<close>.\<close>

definition with_signal :: "options \<Rightarrow> nat \<Rightarrow> options" where
  "with_signal options c = set_prop ''signal'' (AbortSignal c) options"

text \<open>
  \<^verbatim>\<open>
  const fetchWithTimeout = async (url, options = {}, timeout = 10000) => {
      const controller = new AbortController();
      const timeoutId = setTimeout(() => controller.abort(), timeout);
      try {
          const response = await fetch(url, { ...options, signal: controller.signal });
          clearTimeout(timeoutId);
          return response;
      } catch (error) {
          clearTimeout(timeoutId);
          throw error;
      }
  };
  \<close>
  The controller is a fresh object; \<open>c\<close> names it (the retry loop uses the attempt
  index). The timer is armed before \<^verbatim>\<open>fetch\<close> is called, so a call that has not
  settled strictly before \<open>timeout\<close> milliseconds is aborted by the timer's callback and
  rejects; a call that settles earlier wins and the timer is cleared without firing.
\<close>

definition fetchWithTimeout ::
  "transport \<Rightarrow> nat \<Rightarrow> string \<Rightarrow> options option \<Rightarrow> nat option
     \<Rightarrow> (js_error + response) \<times> event list" where
  "fetchWithTimeout t c url options timeout =
     (let opts = default_arg [] options;
          ms = default_arg 10000 timeout;
          request = with_signal opts c;
          started = [TimerSet c ms, FetchCall url request];
          aborted = (Inl AbortError, started @ [Elapsed ms, Abort c, ClearTimeout c])
      in case t c url request of
           Responds d response \<Rightarrow>
             if d < ms then (Inr response, started @ [Elapsed d, ClearTimeout c])
             else aborted
         | Rejects d msg \<Rightarrow>
             if d < ms then (Inl (FetchError msg), started @ [Elapsed d, ClearTimeout c])
             else aborted
         | Hangs \<Rightarrow> aborted)"

subsection \<open>The retry loop: \<^verbatim>\<open>fetchWithRetry\<close>\<close>

text \<open>
  \<^verbatim>\<open>
  const fetchWithRetry = async (url, options = {}, retries = 3) => {
      for (let i = 0; i < retries; i++) {
          try {
              const response = await fetchWithTimeout(url, options);
              if (!response.ok) throw new Error(`HTTP error! Status: ${response.status}`);
              return response;
          } catch (error) {
              if (i === retries - 1) throw error;
              console.log(`Retrying (${i + 1}/${retries})...`);
              await new Promise((resolve) => setTimeout(resolve, 2000));
          }
      }
  };
  \<close>
  \<open>try_block\<close> is the body of the \<^verbatim>\<open>try\<close>: what it returns, or what reaches the
  \<^verbatim>\<open>catch\<close>. The call of \<open>fetchWithTimeout\<close> passes no timeout.
\<close>

definition try_block ::
  "transport \<Rightarrow> nat \<Rightarrow> string \<Rightarrow> options \<Rightarrow> (js_error + response) \<times> event list" where
  "try_block t i url options =
     (case fetchWithTimeout t i url (Some options) None of
        (Inl error, evs) \<Rightarrow> (Inl error, evs)
      | (Inr response, evs) \<Rightarrow>
          if \<not> ok response
          then (Inl (Error (''HTTP error! Status: '' @ show_int (status response))), evs)
          else (Inr response, evs))"

definition retry_notice :: "nat \<Rightarrow> int \<Rightarrow> string" where
  "retry_notice i retries =
     ''Retrying ('' @ show_int (int i + 1) @ ''/'' @ show_int retries @ '')...''"

text \<open>
  The \<^verbatim>\<open>for\<close> loop from the counter \<open>i\<close> on, with the trace so far. Falling out of the
  loop returns \<^verbatim>\<open>undefined\<close>, which is \<open>Inr None\<close>. The retry count is a whole number
  here, as a count is (every call site leaves it out, so it is 3); it may be zero or
  negative.
\<close>

function retry_loop ::
  "transport \<Rightarrow> string \<Rightarrow> options \<Rightarrow> int \<Rightarrow> nat \<Rightarrow> event list
     \<Rightarrow> (js_error + response option) \<times> event list" where
  "retry_loop t url options retries i tr =
     (if int i < retries then
        (case try_block t i url options of
           (Inr response, evs) \<Rightarrow> (Inr (Some response), tr @ evs)
         | (Inl error, evs) \<Rightarrow>
             if int i = retries - 1 then (Inl error, tr @ evs)
             else retry_loop t url options retries (Suc i)
                    (tr @ evs @ [ConsoleLog (retry_notice i retries), Sleep 2000]))
      else (Inr None, tr))"
  by pat_completeness auto
termination
  by (relation "measure (\<lambda>(t, url, options, retries, i, tr). nat (retries - int i))") auto

declare retry_loop.simps [simp del]

definition fetchWithRetry ::
  "transport \<Rightarrow> string \<Rightarrow> options option \<Rightarrow> int option
     \<Rightarrow> (js_error + response option) \<times> event list" where
  "fetchWithRetry t url options retries =
     retry_loop t url (default_arg [] options) (default_arg 3 retries) 0 []"

text \<open>
  A call written against the documented interface, (address, options, timeout, maximum
  retry count), passes four positional arguments. The function has three parameters:
  the third argument is bound to \<^verbatim>\<open>retries\<close> and the fourth is dropped.
\<close>

definition call_positional ::
  "transport \<Rightarrow> string \<Rightarrow> options option \<Rightarrow> int option \<Rightarrow> int option
     \<Rightarrow> (js_error + response option) \<times> event list" where
  "call_positional t a1 a2 a3 a4 = fetchWithRetry t a1 a2 a3"

subsection \<open>Vocabulary of the properties\<close>

text \<open>The attempts of a call are the calls of \<^verbatim>\<open>fetch\<close> in its trace.\<close>

fun is_fetch :: "event \<Rightarrow> bool" where
  "is_fetch (FetchCall u r) = True"
| "is_fetch e = False"

definition attempts :: "event list \<Rightarrow> nat" where
  "attempts tr = length (filter is_fetch tr)"

text \<open>The events of the \<^verbatim>\<open>catch\<close> branch that goes on: the notice and the sleep.\<close>

fun is_notice :: "event \<Rightarrow> bool" where
  "is_notice (ConsoleLog m) = True"
| "is_notice e = False"

fun is_retry_step :: "event \<Rightarrow> bool" where
  "is_retry_step (ConsoleLog m) = True"
| "is_retry_step (Sleep d) = True"
| "is_retry_step e = False"

fun is_sleep :: "event \<Rightarrow> bool" where
  "is_sleep (Sleep d) = True"
| "is_sleep e = False"

text \<open>An event respects the bound \<open>T\<close> when it arms no other timer and waits no longer.\<close>

fun within :: "nat \<Rightarrow> event \<Rightarrow> bool" where
  "within T (TimerSet c ms) = (ms = T)"
| "within T (Elapsed d) = (d \<le> T)"
| "within T e = True"

text \<open>How the transport answers attempt \<open>i\<close> of a call with these options.\<close>

definition answer :: "transport \<Rightarrow> string \<Rightarrow> options \<Rightarrow> nat \<Rightarrow> behaviour" where
  "answer t url options i = t i url (with_signal options i)"

text \<open>
  The three kinds of failure the specification names, read off the behaviour of the
  transport under a timeout of \<open>T\<close> milliseconds; \<open>None\<close> is a response with a success
  status that arrives in time.
\<close>

datatype failure = TimeoutFailure | TransportFailure | StatusFailure

fun failure_kind :: "nat \<Rightarrow> behaviour \<Rightarrow> failure option" where
  "failure_kind T Hangs = Some TimeoutFailure"
| "failure_kind T (Rejects d msg) =
     (if d < T then Some TransportFailure else Some TimeoutFailure)"
| "failure_kind T (Responds d r) =
     (if d < T then (if ok r then None else Some StatusFailure) else Some TimeoutFailure)"

text \<open>What a failed attempt that is not the last leaves in the trace.\<close>

definition failed_round :: "transport \<Rightarrow> string \<Rightarrow> options \<Rightarrow> int \<Rightarrow> nat \<Rightarrow> event list" where
  "failed_round t url options retries j =
     snd (try_block t j url options) @ [ConsoleLog (retry_notice j retries), Sleep 2000]"

text \<open>The three ways a call can end.\<close>

datatype verdict = Succeeded | Failed | Empty

fun classify :: "js_error + response option \<Rightarrow> verdict" where
  "classify (Inl e) = Failed"
| "classify (Inr (Some r)) = Succeeded"
| "classify (Inr None) = Empty"

subsection \<open>Sample transports\<close>

definition resp200 :: response where
  "resp200 = \<lparr>ok = True, status = 200, body = ''{}''\<rparr>"

definition resp404 :: response where
  "resp404 = \<lparr>ok = False, status = 404, body = []\<rparr>"

definition resp500 :: response where
  "resp500 = \<lparr>ok = False, status = 500, body = []\<rparr>"

definition always_hangs :: transport where
  "always_hangs i u r = Hangs"

definition always_404 :: transport where
  "always_404 i u r = Responds 30 resp404"

definition always_500 :: transport where
  "always_500 i u r = Responds 30 resp500"

definition slow_ok :: transport where
  "slow_ok i u r = Responds 5000 resp200"

definition quick_ok :: transport where
  "quick_ok i u r = Responds 120 resp200"

text \<open>Two timeouts, then status 200 on the third attempt.\<close>

definition flaky :: transport where
  "flaky i u r = (if i < 2 then Hangs else Responds 120 resp200)"

definition referer :: options where
  "referer = [(''headers'', HeaderSet [(''Referer'', ''https://mangadex.org'')])]"

subsection \<open>Calls in sequence: the state they share\<close>

text \<open>
  Two calls made one after the other run in the same process. What the first leaves
  behind for the second is the heap (the caller's options object is passed by reference,
  and every attempt creates an \<^verbatim>\<open>AbortController\<close>), the position the transport has
  reached, and what has happened so far. The two helpers are written again over that
  state, statement by statement: allocation, the copy made by the spread, the call of
  \<^verbatim>\<open>fetch\<close>, and the write that \<^verbatim>\<open>controller.abort()\<close> does.
\<close>

datatype object = Plain options | Controller bool

record world =
  heap :: "nat \<Rightarrow> object option"
  fresh :: nat
  sent :: nat
  happened :: "event list"

text \<open>A new object takes the next free address.\<close>

definition allocate :: "object \<Rightarrow> world \<Rightarrow> nat \<times> world" where
  "allocate ob w = (fresh w, w\<lparr>heap := (heap w)(fresh w \<mapsto> ob), fresh := Suc (fresh w)\<rparr>)"

definition emit :: "event list \<Rightarrow> world \<Rightarrow> world" where
  "emit evs w = w\<lparr>happened := happened w @ evs\<rparr>"

text \<open>\<^verbatim>\<open>options = {}\<close>: a missing argument is a new empty object.\<close>

definition default_object :: "nat option \<Rightarrow> world \<Rightarrow> nat \<times> world" where
  "default_object options w =
     (case options of None \<Rightarrow> allocate (Plain []) w | Some a \<Rightarrow> (a, w))"

text \<open>\<^verbatim>\<open>...options\<close>: the properties of the object at an address, read at that moment.\<close>

definition spread :: "world \<Rightarrow> nat \<Rightarrow> options" where
  "spread w a = (case heap w a of Some (Plain ps) \<Rightarrow> ps | Some (Controller f) \<Rightarrow> [] | None \<Rightarrow> [])"

text \<open>\<^verbatim>\<open>controller.abort()\<close> sets the flag of the controller.\<close>

definition abort :: "nat \<Rightarrow> world \<Rightarrow> world" where
  "abort c w = w\<lparr>heap := (heap w)(c \<mapsto> Controller True)\<rparr>"

text \<open>
  \<open>fetchWithTimeout\<close> over the state. The transport answers the call of \<^verbatim>\<open>fetch\<close>
  according to its position, which the call advances; the signal in the request is that
  of the controller just allocated.
\<close>

definition fetchWithTimeout_w ::
  "transport \<Rightarrow> string \<Rightarrow> nat option \<Rightarrow> nat option \<Rightarrow> world
     \<Rightarrow> (js_error + response) \<times> world" where
  "fetchWithTimeout_w net url options timeout w =
     (let (opts, w1) = default_object options w;
          ms = default_arg 10000 timeout;
          (c, w2) = allocate (Controller False) w1;
          w3 = emit [TimerSet c ms] w2;
          request = with_signal (spread w3 opts) c;
          b = net (sent w3) url request;
          w4 = emit [FetchCall url request] (w3\<lparr>sent := Suc (sent w3)\<rparr>);
          aborted = (Inl AbortError, emit [Elapsed ms, Abort c, ClearTimeout c] (abort c w4))
      in case b of
           Responds d response \<Rightarrow>
             if d < ms then (Inr response, emit [Elapsed d, ClearTimeout c] w4)
             else aborted
         | Rejects d msg \<Rightarrow>
             if d < ms then (Inl (FetchError msg), emit [Elapsed d, ClearTimeout c] w4)
             else aborted
         | Hangs \<Rightarrow> aborted)"

text \<open>The body of the \<^verbatim>\<open>try\<close>, the loop and \<open>fetchWithRetry\<close> over the state.\<close>

definition try_block_w ::
  "transport \<Rightarrow> string \<Rightarrow> nat \<Rightarrow> world \<Rightarrow> (js_error + response) \<times> world" where
  "try_block_w net url options w =
     (case fetchWithTimeout_w net url (Some options) None w of
        (Inl error, w') \<Rightarrow> (Inl error, w')
      | (Inr response, w') \<Rightarrow>
          if \<not> ok response
          then (Inl (Error (''HTTP error! Status: '' @ show_int (status response))), w')
          else (Inr response, w'))"

function retry_loop_w ::
  "transport \<Rightarrow> string \<Rightarrow> nat \<Rightarrow> int \<Rightarrow> nat \<Rightarrow> world
     \<Rightarrow> (js_error + response option) \<times> world" where
  "retry_loop_w net url options retries i w =
     (if int i < retries then
        (case try_block_w net url options w of
           (Inr response, w') \<Rightarrow> (Inr (Some response), w')
         | (Inl error, w') \<Rightarrow>
             if int i = retries - 1 then (Inl error, w')
             else retry_loop_w net url options retries (Suc i)
                    (emit [ConsoleLog (retry_notice i retries), Sleep 2000] w'))
      else (Inr None, w))"
  by pat_completeness auto
termination
  by (relation "measure (\<lambda>(net, url, options, retries, i, w). nat (retries - int i))") auto

declare retry_loop_w.simps [simp del]

definition fetchWithRetry_w ::
  "transport \<Rightarrow> string \<Rightarrow> nat option \<Rightarrow> int option \<Rightarrow> world
     \<Rightarrow> (js_error + response option) \<times> world" where
  "fetchWithRetry_w net url options retries w =
     (let (opts, w1) = default_object options w
      in retry_loop_w net url opts (default_arg 3 retries) 0 w1)"

text \<open>
  The transport as one call meets it, when the call starts in the world \<open>w\<close>: its attempt
  \<open>i\<close> is the call of \<^verbatim>\<open>fetch\<close> at position \<open>sent w + i\<close>, with the signal of the
  controller allocated at \<open>fresh w + i\<close>.
\<close>

definition met_from :: "transport \<Rightarrow> world \<Rightarrow> transport" where
  "met_from net w i u r = net (sent w + i) u (with_signal r (fresh w + i))"

text \<open>The options a call works with: those at the address passed, or none.\<close>

definition options_at :: "world \<Rightarrow> nat option \<Rightarrow> options" where
  "options_at w options = (case options of None \<Rightarrow> [] | Some a \<Rightarrow> spread w a)"

text \<open>An argument that is passed points to an object that has been allocated.\<close>

definition allocated :: "world \<Rightarrow> nat option \<Rightarrow> bool" where
  "allocated w options = (case options of None \<Rightarrow> True | Some a \<Rightarrow> a < fresh w)"

text \<open>A script that repeats every three calls: two timeouts, then status 200.\<close>

definition periodic :: transport where
  "periodic i u r = (if i mod 3 < 2 then Hangs else Responds 120 resp200)"

text \<open>A process that has made no call yet and holds one options object.\<close>

definition start :: world where
  "start = \<lparr>heap = [0 \<mapsto> Plain referer], fresh = 1, sent = 0, happened = []\<rparr>"

section \<open>Properties\<close>

subsection \<open>Evaluation\<close>

text \<open>The equations that evaluate a call on a concrete transport.\<close>

lemmas run_defs = fetchWithRetry_def call_positional_def default_arg_def retry_loop.simps
  try_block_def fetchWithTimeout_def with_signal_def retry_notice_def show_int_def
  show_nat.simps attempts_def failed_round_def answer_def

subsection \<open>One step of the loop\<close>

lemma retry_loop_exit:
  "\<not> int i < retries \<Longrightarrow> retry_loop t url options retries i tr = (Inr None, tr)"
  by (subst retry_loop.simps) simp

lemma retry_loop_success:
  "int i < retries \<Longrightarrow> try_block t i url options = (Inr r, evs) \<Longrightarrow>
   retry_loop t url options retries i tr = (Inr (Some r), tr @ evs)"
  by (subst retry_loop.simps) simp

lemma retry_loop_last:
  "int i = retries - 1 \<Longrightarrow> try_block t i url options = (Inl e, evs) \<Longrightarrow>
   retry_loop t url options retries i tr = (Inl e, tr @ evs)"
  by (subst retry_loop.simps) simp

lemma retry_loop_again:
  "int i < retries \<Longrightarrow> int i \<noteq> retries - 1 \<Longrightarrow> try_block t i url options = (Inl e, evs) \<Longrightarrow>
   retry_loop t url options retries i tr =
     retry_loop t url options retries (Suc i)
       (tr @ evs @ [ConsoleLog (retry_notice i retries), Sleep 2000])"
  by (subst retry_loop.simps) simp

lemma try_block_shape:
  "\<exists>x evs. try_block t i url options = (x, evs)"
  by (cases "try_block t i url options") simp

subsection \<open>One attempt\<close>

lemma failure_kind_None:
  "failure_kind T b = None \<longleftrightarrow> (\<exists>d r. b = Responds d r \<and> d < T \<and> ok r)"
  by (cases b) auto

lemma try_block_success:
  "answer t url options i = Responds d r \<Longrightarrow> d < 10000 \<Longrightarrow> ok r \<Longrightarrow>
   try_block t i url options =
     (Inr r, [TimerSet i 10000, FetchCall url (with_signal options i), Elapsed d, ClearTimeout i])"
  by (simp add: try_block_def fetchWithTimeout_def answer_def default_arg_def Let_def)

lemma try_block_failure:
  "failure_kind 10000 (answer t url options i) \<noteq> None \<Longrightarrow>
   \<exists>e evs. try_block t i url options = (Inl e, evs)"
  by (cases "answer t url options i")
     (auto simp: try_block_def fetchWithTimeout_def answer_def default_arg_def Let_def)

lemma try_block_events:
  "snd (try_block t i url options) =
     TimerSet i 10000 # FetchCall url (with_signal options i) #
       (case answer t url options i of
          Responds d r \<Rightarrow> if d < 10000 then [Elapsed d, ClearTimeout i]
                          else [Elapsed 10000, Abort i, ClearTimeout i]
        | Rejects d m \<Rightarrow> if d < 10000 then [Elapsed d, ClearTimeout i]
                         else [Elapsed 10000, Abort i, ClearTimeout i]
        | Hangs \<Rightarrow> [Elapsed 10000, Abort i, ClearTimeout i])"
  by (cases "t i url (with_signal options i)")
     (auto simp: try_block_def fetchWithTimeout_def default_arg_def Let_def answer_def)

lemma try_block_cong:
  "answer t1 url options j = answer t2 url options j \<Longrightarrow>
   try_block t1 j url options = try_block t2 j url options"
  by (simp add: try_block_def fetchWithTimeout_def answer_def default_arg_def Let_def)

lemma try_block_request:
  "FetchCall u request \<in> set (snd (try_block t j url options)) \<Longrightarrow>
   u = url \<and> request = with_signal options j"
  by (cases "answer t url options j") (auto simp: try_block_events split: if_splits)

lemma try_block_within: "list_all (within 10000) (snd (try_block t j url options))"
  by (cases "answer t url options j") (auto simp: try_block_events)

lemma fetchWithTimeout_within:
  "list_all (within (default_arg 10000 timeout)) (snd (fetchWithTimeout t c url options timeout))"
  by (cases "t c url (with_signal (default_arg [] options) c)")
     (auto simp: fetchWithTimeout_def Let_def)

lemma attempts_try_block: "attempts (snd (try_block t i url options)) = 1"
  by (cases "t i url (with_signal options i)")
     (auto simp: attempts_def try_block_def fetchWithTimeout_def default_arg_def Let_def)

lemma attempts_append: "attempts (xs @ ys) = attempts xs + attempts ys"
  by (simp add: attempts_def)

lemma attempts_failed_round: "attempts (failed_round t url options retries j) = 1"
  by (simp add: failed_round_def attempts_append attempts_try_block) (simp add: attempts_def)

lemma attempts_rounds:
  "attempts (concat (map (failed_round t url options retries) [i..<k])) = k - i"
proof (induction k)
  case 0
  show ?case by (simp add: attempts_def)
next
  case (Suc k)
  show ?case
  proof (cases "i \<le> k")
    case True
    then show ?thesis
      using Suc by (simp add: attempts_append attempts_failed_round Suc_diff_le)
  next
    case False
    then show ?thesis by (simp add: attempts_def)
  qed
qed

lemma no_sleep_try_block: "filter is_sleep (snd (try_block t i url options)) = []"
  by (cases "answer t url options i") (auto simp: try_block_events)

lemma no_notice_try_block: "filter is_notice (snd (try_block t i url options)) = []"
  by (cases "answer t url options i") (auto simp: try_block_events)

lemma no_retry_step_try_block: "filter is_retry_step (snd (try_block t i url options)) = []"
  by (cases "answer t url options i") (auto simp: try_block_events)

lemma sleeps_rounds:
  "filter is_sleep (concat (map (failed_round t url options retries) [0..<k])) =
     replicate k (Sleep 2000)"
  by (induction k) (simp_all add: failed_round_def no_sleep_try_block replicate_append_same)

lemma notices_rounds:
  "filter is_notice (concat (map (failed_round t url options retries) [0..<k])) =
     map (\<lambda>j. ConsoleLog (retry_notice j retries)) [0..<k]"
  by (induction k) (simp_all add: failed_round_def no_notice_try_block)

lemma map_of_set_prop: "map_of (set_prop k v ps) = (map_of ps)(k \<mapsto> v)"
  by (induction ps) (auto simp: fun_eq_iff)

lemma filter_set_prop:
  "filter (\<lambda>p. fst p \<noteq> k) (set_prop k v ps) = filter (\<lambda>p. fst p \<noteq> k) ps"
  by (induction ps) auto

subsection \<open>Runs of the loop\<close>

lemma retry_loop_run:
  assumes "\<forall>j. i \<le> j \<and> j < k \<longrightarrow> failure_kind 10000 (answer t url options j) \<noteq> None"
    and "i \<le> k" and "int k < retries"
  shows "retry_loop t url options retries i tr =
         retry_loop t url options retries k
           (tr @ concat (map (failed_round t url options retries) [i..<k]))"
  using assms
proof (induction k)
  case 0
  then show ?case by simp
next
  case (Suc k)
  show ?case
  proof (cases "i = Suc k")
    case True
    then show ?thesis by simp
  next
    case False
    with Suc.prems have ik: "i \<le> k" and kr: "int k < retries" and kl: "int k \<noteq> retries - 1"
      by auto
    from Suc.prems have "failure_kind 10000 (answer t url options k) \<noteq> None"
      using ik by auto
    then obtain e evs where tb: "try_block t k url options = (Inl e, evs)"
      using try_block_failure by blast
    have "retry_loop t url options retries i tr =
          retry_loop t url options retries k
            (tr @ concat (map (failed_round t url options retries) [i..<k]))"
      using Suc.IH Suc.prems ik kr by auto
    also have "\<dots> = retry_loop t url options retries (Suc k)
            ((tr @ concat (map (failed_round t url options retries) [i..<k])) @ evs @
              [ConsoleLog (retry_notice k retries), Sleep 2000])"
      by (rule retry_loop_again [OF kr kl tb])
    also have "(tr @ concat (map (failed_round t url options retries) [i..<k])) @ evs @
              [ConsoleLog (retry_notice k retries), Sleep 2000] =
              tr @ concat (map (failed_round t url options retries) [i..<Suc k])"
      using ik tb by (simp add: failed_round_def)
    finally show ?thesis .
  qed
qed

lemma retry_loop_first_success:
  assumes "0 < k" and "int k \<le> retries"
    and "\<forall>j<k - 1. failure_kind 10000 (answer t url options j) \<noteq> None"
    and "try_block t (k - 1) url options = (Inr r, evs)"
  shows "retry_loop t url options retries 0 [] =
           (Inr (Some r), concat (map (failed_round t url options retries) [0..<k - 1]) @ evs)"
proof -
  have lt: "int (k - 1) < retries" using assms(1,2) by auto
  have "retry_loop t url options retries 0 [] =
        retry_loop t url options retries (k - 1)
          ([] @ concat (map (failed_round t url options retries) [0..<k - 1]))"
    using assms(3) lt by (intro retry_loop_run) auto
  also have "\<dots> = (Inr (Some r),
      ([] @ concat (map (failed_round t url options retries) [0..<k - 1])) @ evs)"
    by (rule retry_loop_success [OF lt assms(4)])
  finally show ?thesis by simp
qed

lemma retry_loop_exhausted:
  assumes "0 < retries"
    and "\<forall>j<nat retries - 1. failure_kind 10000 (answer t url options j) \<noteq> None"
    and "try_block t (nat retries - 1) url options = (Inl e, evs)"
  shows "retry_loop t url options retries 0 [] =
           (Inl e, concat (map (failed_round t url options retries) [0..<nat retries - 1]) @ evs)"
proof -
  have lt: "int (nat retries - 1) < retries" and eq: "int (nat retries - 1) = retries - 1"
    using assms(1) by auto
  have "retry_loop t url options retries 0 [] =
        retry_loop t url options retries (nat retries - 1)
          ([] @ concat (map (failed_round t url options retries) [0..<nat retries - 1]))"
    using assms(2) lt by (intro retry_loop_run) auto
  also have "\<dots> = (Inl e,
      ([] @ concat (map (failed_round t url options retries) [0..<nat retries - 1])) @ evs)"
    by (rule retry_loop_last [OF eq assms(3)])
  finally show ?thesis by simp
qed

lemma retry_loop_settles:
  "int i < retries \<Longrightarrow> fst (retry_loop t url options retries i tr) \<noteq> Inr None"
proof (induction "nat (retries - int i)" arbitrary: i tr)
  case 0
  then show ?case by simp
next
  case (Suc m)
  obtain x evs where tb: "try_block t i url options = (x, evs)"
    using try_block_shape by blast
  show ?case
  proof (cases x)
    case (Inr r)
    with tb Suc.prems show ?thesis by (simp add: retry_loop_success)
  next
    case (Inl e)
    show ?thesis
    proof (cases "int i = retries - 1")
      case True
      with tb Inl show ?thesis by (simp add: retry_loop_last)
    next
      case False
      have "fst (retry_loop t url options retries (Suc i)
                  (tr @ evs @ [ConsoleLog (retry_notice i retries), Sleep 2000])) \<noteq> Inr None"
        using Suc.hyps Suc.prems False by (intro Suc.hyps(1)) auto
      with tb Inl False Suc.prems show ?thesis by (simp add: retry_loop_again)
    qed
  qed
qed

lemma retry_loop_returns:
  "fst (retry_loop t url options retries i tr) = Inr (Some r) \<Longrightarrow>
   \<exists>k pre evs. try_block t k url options = (Inr r, evs)
      \<and> snd (retry_loop t url options retries i tr) = tr @ pre @ evs
      \<and> attempts pre + i = k"
proof (induction "nat (retries - int i)" arbitrary: i tr)
  case 0
  then show ?case by (simp add: retry_loop_exit)
next
  case (Suc m)
  then have lt: "int i < retries" by simp
  obtain x evs where x: "try_block t i url options = (x, evs)"
    using try_block_shape by blast
  show ?case
  proof (cases x)
    case (Inr r')
    with x lt Suc.prems have "r' = r"
      and "snd (retry_loop t url options retries i tr) = tr @ [] @ evs"
      by (simp_all add: retry_loop_success)
    moreover have "attempts [] + i = i" by (simp add: attempts_def)
    ultimately show ?thesis using x Inr by blast
  next
    case (Inl e)
    show ?thesis
    proof (cases "int i = retries - 1")
      case True
      with x Inl Suc.prems show ?thesis by (simp add: retry_loop_last)
    next
      case False
      let ?more = "[ConsoleLog (retry_notice i retries), Sleep 2000]"
      have step: "retry_loop t url options retries i tr =
          retry_loop t url options retries (Suc i) (tr @ evs @ ?more)"
        using x Inl by (intro retry_loop_again [OF lt False]) simp
      have m: "m = nat (retries - int (Suc i))" using Suc.hyps(2) by simp
      from Suc.hyps(1) [OF m, of "tr @ evs @ ?more"] Suc.prems step
      obtain k pre evs' where k: "try_block t k url options = (Inr r, evs')"
        and tr: "snd (retry_loop t url options retries (Suc i) (tr @ evs @ ?more)) =
                   (tr @ evs @ ?more) @ pre @ evs'"
        and at: "attempts pre + Suc i = k"
        by auto
      have "attempts evs = 1"
        using attempts_try_block [of t i url options] x by simp
      then have "attempts ((evs @ ?more) @ pre) + i = k"
        using at by (simp add: attempts_append) (simp add: attempts_def)
      moreover have "snd (retry_loop t url options retries i tr) =
                       tr @ ((evs @ ?more) @ pre) @ evs'"
        using step tr by simp
      ultimately show ?thesis using k by blast
    qed
  qed
qed

lemma retry_loop_cong:
  "\<forall>j. i \<le> j \<and> j < nat retries \<longrightarrow> answer t1 url options j = answer t2 url options j \<Longrightarrow>
   retry_loop t1 url options retries i tr = retry_loop t2 url options retries i tr"
proof (induction "nat (retries - int i)" arbitrary: i tr)
  case 0
  then show ?case by (simp add: retry_loop_exit)
next
  case (Suc m)
  then have lt: "int i < retries" by simp
  then have tb: "try_block t1 i url options = try_block t2 i url options"
    using Suc.prems by (intro try_block_cong) auto
  obtain x evs where x: "try_block t2 i url options = (x, evs)"
    using try_block_shape by blast
  show ?case
  proof (cases x)
    case (Inr r)
    with x tb lt show ?thesis by (simp add: retry_loop_success)
  next
    case (Inl e)
    show ?thesis
    proof (cases "int i = retries - 1")
      case True
      with x tb Inl show ?thesis by (simp add: retry_loop_last)
    next
      case False
      have "retry_loop t1 url options retries (Suc i)
              (tr @ evs @ [ConsoleLog (retry_notice i retries), Sleep 2000]) =
            retry_loop t2 url options retries (Suc i)
              (tr @ evs @ [ConsoleLog (retry_notice i retries), Sleep 2000])"
        using Suc.hyps(2) Suc.prems by (intro Suc.hyps(1)) auto
      with x tb Inl False lt show ?thesis by (simp add: retry_loop_again)
    qed
  qed
qed

lemma retry_loop_uniform:
  assumes "\<forall>j. i \<le> j \<and> j < nat retries \<longrightarrow>
             (failure_kind 10000 (answer t1 url options j) = None) =
             (failure_kind 10000 (answer t2 url options j) = None)"
    and "attempts tr1 = attempts tr2"
    and "filter is_retry_step tr1 = filter is_retry_step tr2"
  shows "classify (fst (retry_loop t1 url options retries i tr1)) =
           classify (fst (retry_loop t2 url options retries i tr2))
       \<and> attempts (snd (retry_loop t1 url options retries i tr1)) =
           attempts (snd (retry_loop t2 url options retries i tr2))
       \<and> filter is_retry_step (snd (retry_loop t1 url options retries i tr1)) =
           filter is_retry_step (snd (retry_loop t2 url options retries i tr2))"
  using assms
proof (induction "nat (retries - int i)" arbitrary: i tr1 tr2)
  case 0
  then show ?case by (simp add: retry_loop_exit)
next
  case (Suc m)
  then have lt: "int i < retries" by simp
  have agree: "(failure_kind 10000 (answer t1 url options i) = None) =
               (failure_kind 10000 (answer t2 url options i) = None)"
    using Suc.prems(1) lt by auto
  have a1: "attempts (snd (try_block t1 i url options)) = 1"
    and a2: "attempts (snd (try_block t2 i url options)) = 1"
    by (rule attempts_try_block)+
  have s1: "filter is_retry_step (snd (try_block t1 i url options)) = []"
    and s2: "filter is_retry_step (snd (try_block t2 i url options)) = []"
    by (rule no_retry_step_try_block)+
  show ?case
  proof (cases "failure_kind 10000 (answer t1 url options i) = None")
    case True
    then obtain d1 r1 where "answer t1 url options i = Responds d1 r1" "d1 < 10000" "ok r1"
      by (auto simp: failure_kind_None)
    then have tb1: "try_block t1 i url options = (Inr r1, snd (try_block t1 i url options))"
      using try_block_success by fastforce
    from True agree obtain d2 r2 where
      "answer t2 url options i = Responds d2 r2" "d2 < 10000" "ok r2"
      by (auto simp: failure_kind_None)
    then have tb2: "try_block t2 i url options = (Inr r2, snd (try_block t2 i url options))"
      using try_block_success by fastforce
    show ?thesis
      using retry_loop_success [OF lt tb1, of tr1] retry_loop_success [OF lt tb2, of tr2]
        a1 a2 s1 s2 Suc.prems(2,3)
      by (simp add: attempts_append)
  next
    case False
    then obtain e1 evs1 where tb1: "try_block t1 i url options = (Inl e1, evs1)"
      using try_block_failure by blast
    from False agree have "failure_kind 10000 (answer t2 url options i) \<noteq> None"
      by simp
    then obtain e2 evs2 where tb2: "try_block t2 i url options = (Inl e2, evs2)"
      using try_block_failure by blast
    have ev: "attempts evs1 = 1" "attempts evs2 = 1"
      "filter is_retry_step evs1 = []" "filter is_retry_step evs2 = []"
      using a1 a2 s1 s2 tb1 tb2 by simp_all
    show ?thesis
    proof (cases "int i = retries - 1")
      case True
      show ?thesis
        using retry_loop_last [OF True tb1, of tr1] retry_loop_last [OF True tb2, of tr2]
          ev Suc.prems(2,3)
        by (simp add: attempts_append)
    next
      case neq: False
      let ?more = "[ConsoleLog (retry_notice i retries), Sleep 2000]"
      have step1: "retry_loop t1 url options retries i tr1 =
          retry_loop t1 url options retries (Suc i) (tr1 @ evs1 @ ?more)"
        by (rule retry_loop_again [OF lt neq tb1])
      have step2: "retry_loop t2 url options retries i tr2 =
          retry_loop t2 url options retries (Suc i) (tr2 @ evs2 @ ?more)"
        by (rule retry_loop_again [OF lt neq tb2])
      have m: "m = nat (retries - int (Suc i))"
        using Suc.hyps(2) by simp
      have ag: "\<forall>j. Suc i \<le> j \<and> j < nat retries \<longrightarrow>
             (failure_kind 10000 (answer t1 url options j) = None) =
             (failure_kind 10000 (answer t2 url options j) = None)"
        using Suc.prems(1) by auto
      have at: "attempts (tr1 @ evs1 @ ?more) = attempts (tr2 @ evs2 @ ?more)"
        using ev Suc.prems(2) by (simp add: attempts_append)
      have st: "filter is_retry_step (tr1 @ evs1 @ ?more) =
                filter is_retry_step (tr2 @ evs2 @ ?more)"
        using ev Suc.prems(3) by simp
      show ?thesis
        unfolding step1 step2 by (rule Suc.hyps(1) [OF m ag at st])
    qed
  qed
qed

lemma retry_loop_invariant:
  assumes "\<And>j. list_all P (snd (try_block t j url options))"
    and "\<And>m. P (ConsoleLog m)" and "P (Sleep 2000)"
  shows "list_all P tr \<Longrightarrow> list_all P (snd (retry_loop t url options retries i tr))"
proof (induction "nat (retries - int i)" arbitrary: i tr)
  case 0
  then show ?case by (simp add: retry_loop_exit)
next
  case (Suc m)
  then have lt: "int i < retries" by simp
  obtain x evs where x: "try_block t i url options = (x, evs)"
    using try_block_shape by blast
  have evs: "list_all P evs"
    using assms(1) [of i] x by simp
  show ?case
  proof (cases x)
    case (Inr r)
    with x lt evs Suc.prems show ?thesis by (simp add: retry_loop_success)
  next
    case (Inl e)
    show ?thesis
    proof (cases "int i = retries - 1")
      case True
      with x Inl evs Suc.prems show ?thesis by (simp add: retry_loop_last)
    next
      case False
      have "list_all P (tr @ evs @ [ConsoleLog (retry_notice i retries), Sleep 2000])"
        using evs Suc.prems assms(2,3) by simp
      then have "list_all P (snd (retry_loop t url options retries (Suc i)
              (tr @ evs @ [ConsoleLog (retry_notice i retries), Sleep 2000])))"
        using Suc.hyps(2) by (intro Suc.hyps(1)) auto
      with x Inl False lt show ?thesis by (simp add: retry_loop_again)
    qed
  qed
qed

subsection \<open>Calls in sequence\<close>

lemma set_prop_twice: "set_prop k v (set_prop k v' ps) = set_prop k v ps"
  by (induction ps) auto

lemma with_signal_twice: "with_signal (with_signal opts c') c = with_signal opts c"
  by (simp add: with_signal_def set_prop_twice)

lemma answer_met_from:
  "answer (met_from net w) url opts j = net (sent w + j) url (with_signal opts (fresh w + j))"
  by (simp add: answer_def met_from_def with_signal_twice)

lemma spread_cong: "heap w a = heap w' a \<Longrightarrow> spread w a = spread w' a"
  by (simp add: spread_def)

lemma try_block_w_result:
  assumes "a < fresh w"
    and "t i url (with_signal opts i) = net (sent w) url (with_signal (spread w a) (fresh w))"
  shows "fst (try_block_w net url a w) = fst (try_block t i url opts)"
proof -
  have ne: "a \<noteq> fresh w" using assms(1) by simp
  show ?thesis
    using ne assms(2)
    by (cases "net (sent w) url (with_signal (spread w a) (fresh w))")
       (simp_all add: try_block_w_def fetchWithTimeout_w_def try_block_def fetchWithTimeout_def
          default_object_def default_arg_def allocate_def emit_def abort_def spread_def Let_def)
qed

lemma try_block_w_world:
  assumes "a < fresh w"
  shows "sent (snd (try_block_w net url a w)) = Suc (sent w)
       \<and> fresh (snd (try_block_w net url a w)) = Suc (fresh w)
       \<and> heap (snd (try_block_w net url a w)) a = heap w a"
proof -
  have ne: "a \<noteq> fresh w" using assms(1) by simp
  show ?thesis
    using ne
    by (cases "net (sent w) url (with_signal (spread w a) (fresh w))")
       (simp_all add: try_block_w_def fetchWithTimeout_w_def
          default_object_def default_arg_def allocate_def emit_def abort_def spread_def Let_def)
qed

lemma retry_loop_w_exit:
  "\<not> int i < retries \<Longrightarrow> retry_loop_w net url a retries i w = (Inr None, w)"
  by (subst retry_loop_w.simps) simp

lemma retry_loop_w_success:
  "int i < retries \<Longrightarrow> try_block_w net url a w = (Inr r, w') \<Longrightarrow>
   retry_loop_w net url a retries i w = (Inr (Some r), w')"
  by (subst retry_loop_w.simps) simp

lemma retry_loop_w_last:
  "int i = retries - 1 \<Longrightarrow> try_block_w net url a w = (Inl e, w') \<Longrightarrow>
   retry_loop_w net url a retries i w = (Inl e, w')"
  by (subst retry_loop_w.simps) simp

lemma retry_loop_w_again:
  "int i < retries \<Longrightarrow> int i \<noteq> retries - 1 \<Longrightarrow> try_block_w net url a w = (Inl e, w') \<Longrightarrow>
   retry_loop_w net url a retries i w =
     retry_loop_w net url a retries (Suc i)
       (emit [ConsoleLog (retry_notice i retries), Sleep 2000] w')"
  by (subst retry_loop_w.simps) simp

lemma retry_loop_w_link:
  assumes "a < fresh w0"
  shows "sent w = sent w0 + i \<Longrightarrow> fresh w = fresh w0 + i \<Longrightarrow> heap w a = heap w0 a \<Longrightarrow>
     fst (retry_loop_w net url a retries i w) =
       fst (retry_loop (met_from net w0) url (spread w0 a) retries i tr)
     \<and> heap (snd (retry_loop_w net url a retries i w)) a = heap w0 a
     \<and> fresh w0 \<le> fresh (snd (retry_loop_w net url a retries i w))"
proof (induction "nat (retries - int i)" arbitrary: i w tr)
  case 0
  then show ?case by (simp add: retry_loop_exit retry_loop_w_exit)
next
  case (Suc m)
  let ?t = "met_from net w0" and ?opts = "spread w0 a"
  have lt: "int i < retries" using Suc.hyps(2) by simp
  have aw: "a < fresh w" using assms Suc.prems(2) by simp
  have sp: "spread w a = ?opts" using Suc.prems(3) by (rule spread_cong)
  have "?t i url (with_signal ?opts i) = net (sent w) url (with_signal (spread w a) (fresh w))"
    using answer_met_from [of net w0 url ?opts i] Suc.prems(1,2) sp
    by (simp add: answer_def)
  then have res: "fst (try_block_w net url a w) = fst (try_block ?t i url ?opts)"
    by (rule try_block_w_result [OF aw])
  note wd = try_block_w_world [OF aw, of net url]
  obtain x w' where xw: "try_block_w net url a w = (x, w')"
    by (cases "try_block_w net url a w") simp
  obtain evs where xe: "try_block ?t i url ?opts = (x, evs)"
    using res xw by (cases "try_block ?t i url ?opts") simp
  have w': "sent w' = Suc (sent w)" "fresh w' = Suc (fresh w)" "heap w' a = heap w a"
    using wd xw by simp_all
  show ?case
  proof (cases x)
    case (Inr r)
    show ?thesis
      using retry_loop_w_success [OF lt xw [unfolded Inr]]
        retry_loop_success [OF lt xe [unfolded Inr], of tr] w' Suc.prems
      by simp
  next
    case (Inl e)
    show ?thesis
    proof (cases "int i = retries - 1")
      case True
      show ?thesis
        using retry_loop_w_last [OF True xw [unfolded Inl]]
          retry_loop_last [OF True xe [unfolded Inl], of tr] w' Suc.prems
        by simp
    next
      case False
      let ?w = "emit [ConsoleLog (retry_notice i retries), Sleep 2000] w'"
      let ?tr = "tr @ evs @ [ConsoleLog (retry_notice i retries), Sleep 2000]"
      have m: "m = nat (retries - int (Suc i))" using Suc.hyps(2) by simp
      have s: "sent ?w = sent w0 + Suc i" "fresh ?w = fresh w0 + Suc i" "heap ?w a = heap w0 a"
        using w' Suc.prems by (simp_all add: emit_def)
      show ?thesis
        unfolding retry_loop_w_again [OF lt False xw [unfolded Inl]]
          retry_loop_again [OF lt False xe [unfolded Inl], of tr]
        by (rule Suc.hyps(1) [OF m s])
    qed
  qed
qed

lemma fetchWithRetry_w_link:
  assumes "allocated w options"
  shows "\<exists>w0. sent w0 = sent w \<and> fresh w \<le> fresh w0
     \<and> fst (fetchWithRetry_w net url options retries w) =
         fst (fetchWithRetry (met_from net w0) url (Some (options_at w options)) retries)
     \<and> options_at (snd (fetchWithRetry_w net url options retries w)) options = options_at w options
     \<and> allocated (snd (fetchWithRetry_w net url options retries w)) options"
proof (cases options)
  case None
  let ?a = "fresh w"
  let ?w0 = "w\<lparr>heap := (heap w)(?a \<mapsto> Plain []), fresh := Suc ?a\<rparr>"
  have a: "?a < fresh ?w0" by simp
  have sp: "spread ?w0 ?a = []" by (simp add: spread_def)
  note link = retry_loop_w_link [OF a, of ?w0 0 net url "default_arg 3 retries" "[]"]
  have "fst (fetchWithRetry_w net url options retries w) =
         fst (fetchWithRetry (met_from net ?w0) url (Some (options_at w options)) retries)"
    using link None sp
    by (simp add: fetchWithRetry_w_def fetchWithRetry_def default_object_def allocate_def
          options_at_def default_arg_def)
  then show ?thesis
    using None by (intro exI [of _ ?w0]) (simp add: options_at_def allocated_def)
next
  case (Some a)
  then have a: "a < fresh w" using assms by (simp add: allocated_def)
  note link = retry_loop_w_link [OF a, of w 0 net url "default_arg 3 retries" "[]"]
  have run: "fetchWithRetry_w net url options retries w =
      retry_loop_w net url a (default_arg 3 retries) 0 w"
    using Some by (simp add: fetchWithRetry_w_def default_object_def)
  have "fst (fetchWithRetry_w net url options retries w) =
         fst (fetchWithRetry (met_from net w) url (Some (options_at w options)) retries)"
    using link Some run
    by (simp add: fetchWithRetry_def options_at_def default_arg_def)
  moreover have "options_at (snd (fetchWithRetry_w net url options retries w)) options =
      options_at w options"
    using link Some run by (simp add: options_at_def spread_def)
  moreover have "allocated (snd (fetchWithRetry_w net url options retries w)) options"
    using link Some run a by (simp add: allocated_def)
  ultimately show ?thesis
    by (intro exI [of _ w]) simp
qed

text \<open>The equations that evaluate a call over the state.\<close>

lemmas run_w_defs = fetchWithRetry_w_def retry_loop_w.simps try_block_w_def
  fetchWithTimeout_w_def default_object_def default_arg_def allocate_def emit_def abort_def
  spread_def with_signal_def retry_notice_def show_int_def show_nat.simps options_at_def
  allocated_def

subsection \<open>Exhausted retries\<close>

text \<open>
  Claim C1, as amended. When the retry count is at least 1 and every attempt the loop
  can make fails (by timeout, transport error or non-success status), the call makes
  exactly that many attempts and then throws the error of the last attempt. The trace is
  the failed rounds, each closed by the notice and the sleep, followed by the events of
  the last attempt, after which nothing happens.
\<close>

theorem exhausted_retries_raise_last_error:
  assumes "default_arg [] options = opts" and "default_arg 3 retries = n"
    and "0 < n"
    and "\<forall>j<nat n. failure_kind 10000 (answer t url opts j) \<noteq> None"
  shows "\<exists>e evs. try_block t (nat n - 1) url opts = (Inl e, evs)
           \<and> fetchWithRetry t url options retries =
               (Inl e, concat (map (failed_round t url opts n) [0..<nat n - 1]) @ evs)
           \<and> attempts (snd (fetchWithRetry t url options retries)) = nat n"
proof -
  have "failure_kind 10000 (answer t url opts (nat n - 1)) \<noteq> None"
    using assms(3,4) by simp
  then obtain e evs where tb: "try_block t (nat n - 1) url opts = (Inl e, evs)"
    using try_block_failure by blast
  have run: "retry_loop t url opts n 0 [] =
      (Inl e, concat (map (failed_round t url opts n) [0..<nat n - 1]) @ evs)"
    using assms(3,4) tb by (intro retry_loop_exhausted) auto
  have "attempts evs = 1"
    using attempts_try_block [of t "nat n - 1" url opts] tb by simp
  then have "attempts (concat (map (failed_round t url opts n) [0..<nat n - 1]) @ evs) = nat n"
    using assms(3) by (simp add: attempts_append attempts_rounds)
  with tb run show ?thesis
    using assms(1,2) by (simp add: fetchWithRetry_def)
qed

text \<open>
  The default three attempts against a server that always answers 500: three attempts,
  and the error thrown refers to the last status.
\<close>

theorem exhausted_retries_raise_last_error_witness:
  "fetchWithRetry always_500 ''https://x/y'' None None =
     (Inl (Error ''HTTP error! Status: 500''),
      concat (map (failed_round always_500 ''https://x/y'' [] 3) [0..<2]) @
        [TimerSet 2 10000, FetchCall ''https://x/y'' [(''signal'', AbortSignal 2)],
         Elapsed 30, ClearTimeout 2])
   \<and> attempts (snd (fetchWithRetry always_500 ''https://x/y'' None None)) = 3"
proof -
  have h: "\<forall>j<nat 3. failure_kind 10000 (answer always_500 ''https://x/y'' [] j) \<noteq> None"
    by (simp add: answer_def always_500_def resp500_def)
  have tb: "try_block always_500 (nat 3 - 1) ''https://x/y'' [] =
      (Inl (Error ''HTTP error! Status: 500''),
       [TimerSet 2 10000, FetchCall ''https://x/y'' [(''signal'', AbortSignal 2)],
        Elapsed 30, ClearTimeout 2])"
    by (simp add: run_defs always_500_def resp500_def)
  show ?thesis
    using exhausted_retries_raise_last_error
      [of None "[]" None 3 always_500 "''https://x/y''", OF _ _ _ h] tb
    by (auto simp: default_arg_def)
qed

text \<open>
  Claim C1 as stated, for every retry count, fails at a retry count of 0: all of the zero
  attempts fail, and the call returns \<^verbatim>\<open>undefined\<close> where the claim has it throw.
\<close>

theorem zero_retries_raise_nothing:
  "fetchWithRetry always_hangs ''https://x/y'' None (Some 0) = (Inr None, [])"
  by (simp add: run_defs)

subsection \<open>The timeout of an attempt\<close>

text \<open>
  Claim C2, as amended. \<open>fetchWithTimeout\<close> takes the timeout, 10000 milliseconds when it
  is left out, and its one attempt arms the timer with it and waits no longer.
  \<open>fetchWithRetry\<close> has no timeout parameter: the third positional argument of a call
  is its retry count and a fourth is dropped, and every attempt of its loop is bounded
  by the fixed 10000 milliseconds.
\<close>

theorem attempts_bounded_by_fixed_timeout:
  "list_all (within (default_arg 10000 timeout)) (snd (fetchWithTimeout t c url options timeout))
   \<and> fetchWithTimeout t c url options None = fetchWithTimeout t c url options (Some 10000)
   \<and> call_positional t url options a3 a4 = fetchWithRetry t url options a3
   \<and> list_all (within 10000) (snd (fetchWithRetry t url options retries))"
proof -
  have "list_all (within 10000) (snd (retry_loop t url (default_arg [] options)
          (default_arg 3 retries) 0 []))"
    by (rule retry_loop_invariant) (simp_all add: try_block_within)
  then show ?thesis
    by (simp add: fetchWithTimeout_within fetchWithRetry_def call_positional_def)
       (simp add: fetchWithTimeout_def default_arg_def)
qed

text \<open>Two attempts against a transport that never answers: each runs for 10000 milliseconds.\<close>

theorem attempts_bounded_by_fixed_timeout_witness:
  "list_all (within 10000) (snd (fetchWithRetry always_hangs ''https://x/y'' None (Some 2)))
   \<and> snd (fetchWithRetry always_hangs ''https://x/y'' None (Some 2)) =
       [TimerSet 0 10000, FetchCall ''https://x/y'' [(''signal'', AbortSignal 0)],
        Elapsed 10000, Abort 0, ClearTimeout 0,
        ConsoleLog ''Retrying (1/2)...'', Sleep 2000,
        TimerSet 1 10000, FetchCall ''https://x/y'' [(''signal'', AbortSignal 1)],
        Elapsed 10000, Abort 1, ClearTimeout 1]"
proof -
  have e: "snd (fetchWithRetry always_hangs ''https://x/y'' None (Some 2)) =
       [TimerSet 0 10000, FetchCall ''https://x/y'' [(''signal'', AbortSignal 0)],
        Elapsed 10000, Abort 0, ClearTimeout 0,
        ConsoleLog ''Retrying (1/2)...'', Sleep 2000,
        TimerSet 1 10000, FetchCall ''https://x/y'' [(''signal'', AbortSignal 1)],
        Elapsed 10000, Abort 1, ClearTimeout 1]"
    by (simp add: run_defs always_hangs_def)
  note inst = attempts_bounded_by_fixed_timeout
    [of None always_hangs 0 "''https://x/y''" None None None "Some 2",
     THEN conjunct2, THEN conjunct2, THEN conjunct2]
  show ?thesis
    using inst e by (intro conjI)
qed

text \<open>
  Claim C2 as stated fails on a call that follows the documented interface with a timeout
  of 1000 and a retry count of 3, against a transport that answers after 5000
  milliseconds: the timer is armed with 10000, the attempt runs for 5000 milliseconds and
  its response is returned, so the attempt was not bounded by the 1000 supplied.
\<close>

theorem supplied_timeout_not_applied:
  "call_positional slow_ok ''https://x/y'' (Some []) (Some 1000) (Some 3) =
     (Inr (Some resp200),
      [TimerSet 0 10000, FetchCall ''https://x/y'' [(''signal'', AbortSignal 0)],
       Elapsed 5000, ClearTimeout 0])
   \<and> \<not> list_all (within 1000)
         (snd (call_positional slow_ok ''https://x/y'' (Some []) (Some 1000) (Some 3)))"
  by (simp add: run_defs slow_ok_def resp200_def)

subsection \<open>Success after failures\<close>

text \<open>
  Claim C3. When attempts 1 to \<open>k - 1\<close> fail and attempt \<open>k\<close>, with \<open>k\<close> at most the retry
  count, gets a response with a success status in time, the call returns that response
  after exactly \<open>k\<close> attempts. Its trace is \<open>k - 1\<close> failed rounds, each made of the
  attempt, the notice and a sleep of 2000 milliseconds, followed by the successful
  attempt: exactly \<open>k - 1\<close> sleeps happen, all of 2000 milliseconds, one between each
  pair of consecutive attempts.
\<close>

theorem success_on_attempt_k:
  assumes "default_arg [] options = opts" and "default_arg 3 retries = n"
    and "0 < k" and "int k \<le> n"
    and "\<forall>j<k - 1. failure_kind 10000 (answer t url opts j) \<noteq> None"
    and "answer t url opts (k - 1) = Responds d r" and "d < 10000" and "ok r"
  shows "fetchWithRetry t url options retries =
           (Inr (Some r),
            concat (map (failed_round t url opts n) [0..<k - 1]) @
              [TimerSet (k - 1) 10000, FetchCall url (with_signal opts (k - 1)),
               Elapsed d, ClearTimeout (k - 1)])
         \<and> attempts (snd (fetchWithRetry t url options retries)) = k
         \<and> filter is_sleep (snd (fetchWithRetry t url options retries)) =
             replicate (k - 1) (Sleep 2000)"
proof -
  let ?evs = "[TimerSet (k - 1) 10000, FetchCall url (with_signal opts (k - 1)),
               Elapsed d, ClearTimeout (k - 1)]"
  have tb: "try_block t (k - 1) url opts = (Inr r, ?evs)"
    using assms(6,7,8) by (rule try_block_success)
  have run: "fetchWithRetry t url options retries =
      (Inr (Some r), concat (map (failed_round t url opts n) [0..<k - 1]) @ ?evs)"
    unfolding fetchWithRetry_def assms(1,2)
    using assms(3,4,5) tb by (rule retry_loop_first_success)
  have "attempts (concat (map (failed_round t url opts n) [0..<k - 1]) @ ?evs) = k"
    using assms(3) by (simp add: attempts_append attempts_rounds) (simp add: attempts_def)
  moreover have "filter is_sleep (concat (map (failed_round t url opts n) [0..<k - 1]) @ ?evs)
      = replicate (k - 1) (Sleep 2000)"
    by (simp add: sleeps_rounds)
  ultimately show ?thesis using run by simp
qed

text \<open>Two timeouts, then status 200 on the third of three attempts.\<close>

theorem success_on_attempt_k_witness:
  "fetchWithRetry flaky ''https://x/y'' (Some []) (Some 3) =
     (Inr (Some resp200),
      [TimerSet 0 10000, FetchCall ''https://x/y'' [(''signal'', AbortSignal 0)],
       Elapsed 10000, Abort 0, ClearTimeout 0,
       ConsoleLog ''Retrying (1/3)...'', Sleep 2000,
       TimerSet 1 10000, FetchCall ''https://x/y'' [(''signal'', AbortSignal 1)],
       Elapsed 10000, Abort 1, ClearTimeout 1,
       ConsoleLog ''Retrying (2/3)...'', Sleep 2000,
       TimerSet 2 10000, FetchCall ''https://x/y'' [(''signal'', AbortSignal 2)],
       Elapsed 120, ClearTimeout 2])
   \<and> attempts (snd (fetchWithRetry flaky ''https://x/y'' (Some []) (Some 3))) = 3
   \<and> filter is_sleep (snd (fetchWithRetry flaky ''https://x/y'' (Some []) (Some 3))) =
       [Sleep 2000, Sleep 2000]"
proof -
  have h: "\<forall>j<3 - 1. failure_kind 10000 (answer flaky ''https://x/y'' [] j) \<noteq> None"
    by (simp add: answer_def flaky_def)
  have a: "answer flaky ''https://x/y'' [] (3 - 1) = Responds 120 resp200"
    by (simp add: answer_def flaky_def)
  have o: "ok resp200" by (simp add: resp200_def)
  have rounds: "concat (map (failed_round flaky ''https://x/y'' [] 3) [0..<3 - 1]) =
      [TimerSet 0 10000, FetchCall ''https://x/y'' [(''signal'', AbortSignal 0)],
       Elapsed 10000, Abort 0, ClearTimeout 0,
       ConsoleLog ''Retrying (1/3)...'', Sleep 2000,
       TimerSet 1 10000, FetchCall ''https://x/y'' [(''signal'', AbortSignal 1)],
       Elapsed 10000, Abort 1, ClearTimeout 1,
       ConsoleLog ''Retrying (2/3)...'', Sleep 2000]"
    by (simp add: run_defs flaky_def upt_conv_Cons)
  have s: "with_signal [] (3 - 1) = [(''signal'', AbortSignal 2)]"
    by (simp add: with_signal_def)
  show ?thesis
    using success_on_attempt_k
      [of "Some []" "[]" "Some 3" 3 3 flaky "''https://x/y''" 120 resp200, OF _ _ _ _ h a _ o]
      rounds s
    by (auto simp: default_arg_def numeral_2_eq_2)
qed

subsection \<open>Success ends the call\<close>

text \<open>
  Claim C4. When the first attempt takes place and gets a response with a success status
  in time, the call makes that one attempt and returns the response as it is. More
  generally, whenever the call returns a response, it is the response of the last
  attempt made: the trace ends with the events of that attempt, which is attempt number
  \<open>k + 1\<close> of \<open>k + 1\<close>.
\<close>

theorem success_returns_at_once:
  assumes "default_arg [] options = opts" and "default_arg 3 retries = n"
  shows "(0 < n \<and> answer t url opts 0 = Responds d r \<and> d < 10000 \<and> ok r \<longrightarrow>
            fetchWithRetry t url options retries =
              (Inr (Some r),
               [TimerSet 0 10000, FetchCall url (with_signal opts 0), Elapsed d, ClearTimeout 0])
            \<and> attempts (snd (fetchWithRetry t url options retries)) = 1)
       \<and> (\<forall>r'. fst (fetchWithRetry t url options retries) = Inr (Some r') \<longrightarrow>
            (\<exists>k pre evs. try_block t k url opts = (Inr r', evs)
               \<and> snd (fetchWithRetry t url options retries) = pre @ evs
               \<and> attempts pre = k
               \<and> attempts (snd (fetchWithRetry t url options retries)) = Suc k))"
proof (intro conjI impI allI)
  assume a: "0 < n \<and> answer t url opts 0 = Responds d r \<and> d < 10000 \<and> ok r"
  then have tb: "try_block t 0 url opts =
      (Inr r, [TimerSet 0 10000, FetchCall url (with_signal opts 0), Elapsed d, ClearTimeout 0])"
    by (intro try_block_success) auto
  have lt: "int 0 < n" using a by simp
  show run: "fetchWithRetry t url options retries =
      (Inr (Some r),
       [TimerSet 0 10000, FetchCall url (with_signal opts 0), Elapsed d, ClearTimeout 0])"
    unfolding fetchWithRetry_def assms
    using retry_loop_success [OF lt tb, of "[]"] by simp
  show "attempts (snd (fetchWithRetry t url options retries)) = 1"
    unfolding run by (simp add: attempts_def)
next
  fix r'
  assume "fst (fetchWithRetry t url options retries) = Inr (Some r')"
  then have "fst (retry_loop t url opts n 0 []) = Inr (Some r')"
    using assms by (simp add: fetchWithRetry_def)
  from retry_loop_returns [OF this]
  obtain k pre evs where k: "try_block t k url opts = (Inr r', evs)"
    and tr: "snd (retry_loop t url opts n 0 []) = pre @ evs" and at: "attempts pre = k"
    by auto
  have "attempts evs = 1"
    using attempts_try_block [of t k url opts] k by simp
  then have "attempts (pre @ evs) = Suc k"
    using at by (simp add: attempts_append)
  then show "\<exists>k pre evs. try_block t k url opts = (Inr r', evs)
               \<and> snd (fetchWithRetry t url options retries) = pre @ evs
               \<and> attempts pre = k
               \<and> attempts (snd (fetchWithRetry t url options retries)) = Suc k"
    using k tr at assms by (auto simp: fetchWithRetry_def)
qed

text \<open>A transport that answers 200 at once, with the default arguments.\<close>

theorem success_returns_at_once_witness:
  "fetchWithRetry quick_ok ''https://x/y'' None None =
     (Inr (Some resp200),
      [TimerSet 0 10000, FetchCall ''https://x/y'' [(''signal'', AbortSignal 0)],
       Elapsed 120, ClearTimeout 0])
   \<and> attempts (snd (fetchWithRetry quick_ok ''https://x/y'' None None)) = 1
   \<and> (\<exists>k pre evs. try_block quick_ok k ''https://x/y'' [] = (Inr resp200, evs)
         \<and> snd (fetchWithRetry quick_ok ''https://x/y'' None None) = pre @ evs
         \<and> attempts pre = k
         \<and> attempts (snd (fetchWithRetry quick_ok ''https://x/y'' None None)) = Suc k)"
proof -
  have d: "default_arg [] None = ([]::options)" "default_arg 3 None = (3::int)"
    by (simp_all add: default_arg_def)
  have s: "with_signal [] 0 = [(''signal'', AbortSignal 0)]"
    by (simp add: with_signal_def)
  have a: "0 < (3::int) \<and> answer quick_ok ''https://x/y'' [] 0 = Responds 120 resp200
           \<and> (120::nat) < 10000 \<and> ok resp200"
    by (simp add: answer_def quick_ok_def resp200_def)
  note inst = success_returns_at_once [OF d, of quick_ok "''https://x/y''" 120 resp200]
  have first: "fetchWithRetry quick_ok ''https://x/y'' None None =
     (Inr (Some resp200),
      [TimerSet 0 10000, FetchCall ''https://x/y'' (with_signal [] 0), Elapsed 120, ClearTimeout 0])
   \<and> attempts (snd (fetchWithRetry quick_ok ''https://x/y'' None None)) = 1"
    using inst [THEN conjunct1] a by (rule mp)
  then have "fst (fetchWithRetry quick_ok ''https://x/y'' None None) = Inr (Some resp200)"
    by simp
  then have second: "\<exists>k pre evs. try_block quick_ok k ''https://x/y'' [] = (Inr resp200, evs)
         \<and> snd (fetchWithRetry quick_ok ''https://x/y'' None None) = pre @ evs
         \<and> attempts pre = k
         \<and> attempts (snd (fetchWithRetry quick_ok ''https://x/y'' None None)) = Suc k"
    using inst [THEN conjunct2, THEN spec, of resp200] by (rule mp [rotated])
  have f1: "fetchWithRetry quick_ok ''https://x/y'' None None =
     (Inr (Some resp200),
      [TimerSet 0 10000, FetchCall ''https://x/y'' [(''signal'', AbortSignal 0)],
       Elapsed 120, ClearTimeout 0])"
    using first unfolding s by (rule conjunct1)
  have f2: "attempts (snd (fetchWithRetry quick_ok ''https://x/y'' None None)) = 1"
    using first by (rule conjunct2)
  show ?thesis by (intro conjI f1 f2 second)
qed

subsection \<open>The timeout aborts the call in flight\<close>

text \<open>
  Claim C5. The request handed to \<^verbatim>\<open>fetch\<close> carries the signal of the attempt's own
  controller. When the call has not settled before the timeout, the timer's callback
  aborts that controller, and the attempt fails with the rejection the abort causes,
  \<open>AbortError\<close>: the attempt does not merely stop waiting. When the call settles in
  time, nothing is aborted. That the aborted call stops is the behaviour of the
  transport, taken here from \<^verbatim>\<open>node-fetch\<close>.
\<close>

theorem timeout_aborts_the_call:
  assumes "default_arg [] options = opts" and "default_arg 10000 timeout = ms"
  shows "(failure_kind ms (t c url (with_signal opts c)) = Some TimeoutFailure \<longrightarrow>
            fetchWithTimeout t c url options timeout =
              (Inl AbortError,
               [TimerSet c ms, FetchCall url (with_signal opts c), Elapsed ms, Abort c,
                ClearTimeout c]))
       \<and> (failure_kind ms (t c url (with_signal opts c)) \<noteq> Some TimeoutFailure \<longrightarrow>
            Abort c \<notin> set (snd (fetchWithTimeout t c url options timeout)))
       \<and> map_of (with_signal opts c) ''signal'' = Some (AbortSignal c)"
  using assms
  by (cases "t c url (with_signal opts c)")
     (auto simp: fetchWithTimeout_def Let_def with_signal_def map_of_set_prop)

text \<open>A timeout of 1000 milliseconds, on a transport that hangs and on one that answers.\<close>

theorem timeout_aborts_the_call_witness:
  "fetchWithTimeout always_hangs 7 ''https://x/y'' (Some referer) (Some 1000) =
     (Inl AbortError,
      [TimerSet 7 1000,
       FetchCall ''https://x/y''
         [(''headers'', HeaderSet [(''Referer'', ''https://mangadex.org'')]),
          (''signal'', AbortSignal 7)],
       Elapsed 1000, Abort 7, ClearTimeout 7])
   \<and> Abort 7 \<notin> set (snd (fetchWithTimeout quick_ok 7 ''https://x/y'' (Some referer) (Some 1000)))"
proof -
  have h: "failure_kind 1000 (always_hangs 7 ''https://x/y'' (with_signal referer 7)) =
             Some TimeoutFailure"
    by (simp add: always_hangs_def)
  have g: "failure_kind 1000 (quick_ok 7 ''https://x/y'' (with_signal referer 7)) \<noteq>
             Some TimeoutFailure"
    by (simp add: quick_ok_def resp200_def)
  have s: "with_signal referer 7 =
      [(''headers'', HeaderSet [(''Referer'', ''https://mangadex.org'')]),
       (''signal'', AbortSignal 7)]"
    by (simp add: with_signal_def referer_def)
  show ?thesis
    using timeout_aborts_the_call
        [of "Some referer" referer "Some 1000" 1000 always_hangs 7 "''https://x/y''"]
      timeout_aborts_the_call
        [of "Some referer" referer "Some 1000" 1000 quick_ok 7 "''https://x/y''"]
      h g s
    by (simp add: default_arg_def)
qed

subsection \<open>All failures are retried alike\<close>

text \<open>
  Claim C6. An attempt that fails for any of the three causes, a non-success status
  included, throws inside the \<^verbatim>\<open>try\<close> and so reaches the \<^verbatim>\<open>catch\<close>. The loop then
  does not look at the cause: two calls with the same arguments in which the same
  attempts fail, whatever the causes, make the same number of attempts, emit the same
  notices and sleeps, and end the same way.
\<close>

theorem failures_retried_alike:
  assumes "default_arg [] options = opts" and "default_arg 3 retries = n"
    and "\<forall>j<nat n. (failure_kind 10000 (answer t1 url opts j) = None) =
                    (failure_kind 10000 (answer t2 url opts j) = None)"
  shows "(\<forall>j cause. failure_kind 10000 (answer t1 url opts j) = Some cause \<longrightarrow>
            (\<exists>e evs. try_block t1 j url opts = (Inl e, evs)))
       \<and> classify (fst (fetchWithRetry t1 url options retries)) =
           classify (fst (fetchWithRetry t2 url options retries))
       \<and> attempts (snd (fetchWithRetry t1 url options retries)) =
           attempts (snd (fetchWithRetry t2 url options retries))
       \<and> filter is_retry_step (snd (fetchWithRetry t1 url options retries)) =
           filter is_retry_step (snd (fetchWithRetry t2 url options retries))"
proof -
  have thrown: "\<forall>j cause. failure_kind 10000 (answer t1 url opts j) = Some cause \<longrightarrow>
            (\<exists>e evs. try_block t1 j url opts = (Inl e, evs))"
    using try_block_failure [of t1 url opts] by simp
  have "\<forall>j. 0 \<le> j \<and> j < nat n \<longrightarrow>
             (failure_kind 10000 (answer t1 url opts j) = None) =
             (failure_kind 10000 (answer t2 url opts j) = None)"
    using assms(3) by simp
  then have "classify (fst (retry_loop t1 url opts n 0 [])) =
           classify (fst (retry_loop t2 url opts n 0 []))
       \<and> attempts (snd (retry_loop t1 url opts n 0 [])) =
           attempts (snd (retry_loop t2 url opts n 0 []))
       \<and> filter is_retry_step (snd (retry_loop t1 url opts n 0 [])) =
           filter is_retry_step (snd (retry_loop t2 url opts n 0 []))"
    by (rule retry_loop_uniform) simp_all
  with thrown show ?thesis
    unfolding fetchWithRetry_def assms(1,2) by (intro conjI) simp_all
qed

text \<open>A server that always answers 404 is retried exactly as one that never answers.\<close>

theorem failures_retried_alike_witness:
  "try_block always_404 0 ''https://x/y'' [] =
     (Inl (Error ''HTTP error! Status: 404''),
      [TimerSet 0 10000, FetchCall ''https://x/y'' [(''signal'', AbortSignal 0)],
       Elapsed 30, ClearTimeout 0])
   \<and> classify (fst (fetchWithRetry always_404 ''https://x/y'' None None)) = Failed
   \<and> classify (fst (fetchWithRetry always_hangs ''https://x/y'' None None)) = Failed
   \<and> attempts (snd (fetchWithRetry always_404 ''https://x/y'' None None)) = 3
   \<and> attempts (snd (fetchWithRetry always_hangs ''https://x/y'' None None)) = 3
   \<and> filter is_retry_step (snd (fetchWithRetry always_404 ''https://x/y'' None None)) =
       [ConsoleLog ''Retrying (1/3)...'', Sleep 2000, ConsoleLog ''Retrying (2/3)...'', Sleep 2000]
   \<and> filter is_retry_step (snd (fetchWithRetry always_hangs ''https://x/y'' None None)) =
       [ConsoleLog ''Retrying (1/3)...'', Sleep 2000, ConsoleLog ''Retrying (2/3)...'', Sleep 2000]"
proof -
  have d: "default_arg [] None = ([]::options)" "default_arg 3 None = (3::int)"
    by (simp_all add: default_arg_def)
  have h: "\<forall>j<nat 3. (failure_kind 10000 (answer always_404 ''https://x/y'' [] j) = None) =
                       (failure_kind 10000 (answer always_hangs ''https://x/y'' [] j) = None)"
    by (simp add: answer_def always_404_def always_hangs_def resp404_def)
  have k: "failure_kind 10000 (answer always_404 ''https://x/y'' [] 0) = Some StatusFailure"
    by (simp add: answer_def always_404_def resp404_def)
  have tb: "try_block always_404 0 ''https://x/y'' [] =
     (Inl (Error ''HTTP error! Status: 404''),
      [TimerSet 0 10000, FetchCall ''https://x/y'' [(''signal'', AbortSignal 0)],
       Elapsed 30, ClearTimeout 0])"
    by (simp add: run_defs always_404_def resp404_def)
  have v: "classify (fst (fetchWithRetry always_hangs ''https://x/y'' None None)) = Failed"
    "attempts (snd (fetchWithRetry always_hangs ''https://x/y'' None None)) = 3"
    "filter is_retry_step (snd (fetchWithRetry always_hangs ''https://x/y'' None None)) =
       [ConsoleLog ''Retrying (1/3)...'', Sleep 2000, ConsoleLog ''Retrying (2/3)...'', Sleep 2000]"
    by (simp_all add: run_defs always_hangs_def)
  note inst = failures_retried_alike [OF d h, THEN conjunct2]
  have c: "classify (fst (fetchWithRetry always_404 ''https://x/y'' None None)) = Failed"
    using inst [THEN conjunct1] v(1) by simp
  have a: "attempts (snd (fetchWithRetry always_404 ''https://x/y'' None None)) = 3"
    using inst [THEN conjunct2, THEN conjunct1] v(2) by simp
  have f: "filter is_retry_step (snd (fetchWithRetry always_404 ''https://x/y'' None None)) =
       [ConsoleLog ''Retrying (1/3)...'', Sleep 2000, ConsoleLog ''Retrying (2/3)...'', Sleep 2000]"
    using inst [THEN conjunct2, THEN conjunct2] v(3) by simp
  show ?thesis by (intro conjI tb c v a f)
qed

subsection \<open>Same transport, same verdict\<close>

text \<open>
  Claim C7. Two calls with the same arguments are made one after the other, the second in
  the state the first has left: the heap with the controllers it allocated and aborted,
  the transport further along, the log longer. When the transport answers the attempts
  of the second call as it answered those of the first, the second call returns or throws
  what the first did, and so ends with the same verdict. The first call leaves the
  caller's options object as it was, so that the same argument still means the same
  options.
\<close>

theorem repeated_call_same_verdict:
  assumes "allocated w options"
    and "options_at w options = opts" and "default_arg 3 retries = n"
    and "fetchWithRetry_w net url options retries w = (r1, w1)"
    and "fetchWithRetry_w net url options retries w1 = (r2, w2)"
    and "\<forall>j<nat n. \<forall>c c'. net (sent w + j) url (with_signal opts c) =
                          net (sent w1 + j) url (with_signal opts c')"
  shows "r1 = r2 \<and> classify r1 = classify r2
       \<and> options_at w1 options = opts \<and> allocated w1 options"
proof -
  from fetchWithRetry_w_link [OF assms(1), of net url retries]
  obtain wa where wa: "sent wa = sent w"
    and r1: "r1 = fst (fetchWithRetry (met_from net wa) url (Some opts) retries)"
    and o1: "options_at w1 options = opts" and a1: "allocated w1 options"
    using assms(2,4) by auto
  from fetchWithRetry_w_link [OF a1, of net url retries]
  obtain wb where wb: "sent wb = sent w1"
    and r2: "r2 = fst (fetchWithRetry (met_from net wb) url (Some opts) retries)"
    using assms(5) o1 by auto
  have "\<forall>j. 0 \<le> j \<and> j < nat n \<longrightarrow>
          answer (met_from net wa) url opts j = answer (met_from net wb) url opts j"
    using assms(6) wa wb by (simp add: answer_met_from)
  then have "retry_loop (met_from net wa) url opts n 0 [] =
             retry_loop (met_from net wb) url opts n 0 []"
    by (rule retry_loop_cong)
  then have "r1 = r2"
    using r1 r2 assms(3) by (simp add: fetchWithRetry_def default_arg_def)
  then show ?thesis using o1 a1 by simp
qed

text \<open>
  A transport that times out twice and then answers 200, over and over: the first call
  uses three positions of it, and the second call succeeds as the first did.
\<close>

theorem repeated_call_same_verdict_witness:
  "classify (fst (fetchWithRetry_w periodic ''https://x/y'' (Some 0) None start)) = Succeeded
   \<and> classify (fst (fetchWithRetry_w periodic ''https://x/y'' (Some 0) None
         (snd (fetchWithRetry_w periodic ''https://x/y'' (Some 0) None start)))) = Succeeded
   \<and> sent (snd (fetchWithRetry_w periodic ''https://x/y'' (Some 0) None start)) = 3
   \<and> options_at (snd (fetchWithRetry_w periodic ''https://x/y'' (Some 0) None start)) (Some 0) =
       referer"
proof -
  let ?first = "fetchWithRetry_w periodic ''https://x/y'' (Some 0) None start"
  let ?second = "fetchWithRetry_w periodic ''https://x/y'' (Some 0) None (snd ?first)"
  have a: "allocated start (Some 0)"
    by (simp add: allocated_def start_def)
  have o: "options_at start (Some 0) = referer"
    by (simp add: options_at_def spread_def start_def)
  have d: "default_arg 3 None = (3::int)"
    by (simp add: default_arg_def)
  have s: "sent (snd ?first) = 3"
    by (simp add: run_w_defs periodic_def start_def resp200_def)
  have v: "classify (fst ?first) = Succeeded"
    by (simp add: run_w_defs periodic_def start_def resp200_def)
  have h: "\<forall>j<nat 3. \<forall>c c'. periodic (sent start + j) ''https://x/y'' (with_signal referer c) =
                            periodic (sent (snd ?first) + j) ''https://x/y'' (with_signal referer c')"
    unfolding s by (simp add: periodic_def start_def)
  note inst = repeated_call_same_verdict
    [OF a o d surjective_pairing [of ?first] surjective_pairing [of ?second] h]
  have v2: "classify (fst ?second) = Succeeded"
    using inst [THEN conjunct2, THEN conjunct1] v by simp
  show ?thesis
    by (intro conjI v v2 s inst [THEN conjunct2, THEN conjunct2, THEN conjunct1])
qed

subsection \<open>No retries, no attempt\<close>

text \<open>
  Claim C8. With a retry count of zero or less the loop body never runs: the call makes
  no attempt, leaves an empty trace and returns \<^verbatim>\<open>undefined\<close>, neither a response nor
  a failure. With a retry count of at least 1 the call never returns \<^verbatim>\<open>undefined\<close>: it
  returns a response or throws.
\<close>

theorem no_attempt_without_retries:
  "(default_arg 3 retries \<le> 0 \<longrightarrow>
      fetchWithRetry t url options retries = (Inr None, [])
      \<and> attempts (snd (fetchWithRetry t url options retries)) = 0)
   \<and> (0 < default_arg 3 retries \<longrightarrow>
      fst (fetchWithRetry t url options retries) \<noteq> Inr None)"
  by (simp add: fetchWithRetry_def retry_loop_exit retry_loop_settles attempts_def)

text \<open>Retry counts 0 and -2, and the retry count 1 on a transport that never answers.\<close>

theorem no_attempt_without_retries_witness:
  "fetchWithRetry quick_ok ''https://x/y'' None (Some 0) = (Inr None, [])
   \<and> fetchWithRetry quick_ok ''https://x/y'' None (Some (- 2)) = (Inr None, [])
   \<and> fst (fetchWithRetry always_hangs ''https://x/y'' None (Some 1)) \<noteq> Inr None"
  using no_attempt_without_retries [of "Some 0" quick_ok "''https://x/y''" None]
    no_attempt_without_retries [of "Some (- 2)" quick_ok "''https://x/y''" None]
    no_attempt_without_retries [of "Some 1" always_hangs "''https://x/y''" None]
  by (simp add: default_arg_def)

subsection \<open>The options reach the transport\<close>

text \<open>
  Claim C9. Every call of \<^verbatim>\<open>fetch\<close> made by \<open>fetchWithRetry\<close> goes to the caller's
  address with the caller's options in which only the property \<^verbatim>\<open>signal\<close> has been
  set: every other property, the headers among them, has the value the caller gave it,
  and the other properties are the same ones in the same order.
\<close>

theorem options_passed_through:
  assumes "default_arg [] options = opts"
    and "FetchCall u request \<in> set (snd (fetchWithRetry t url options retries))"
  shows "u = url
       \<and> (\<exists>c. request = with_signal opts c \<and> map_of request ''signal'' = Some (AbortSignal c))
       \<and> (\<forall>k. k \<noteq> ''signal'' \<longrightarrow> map_of request k = map_of opts k)
       \<and> filter (\<lambda>p. fst p \<noteq> ''signal'') request = filter (\<lambda>p. fst p \<noteq> ''signal'') opts"
proof -
  let ?P = "\<lambda>ev. \<forall>u request. ev = FetchCall u request \<longrightarrow>
              u = url \<and> (\<exists>c. request = with_signal opts c)"
  have "list_all ?P (snd (retry_loop t url opts (default_arg 3 retries) 0 []))"
  proof (rule retry_loop_invariant)
    fix j show "list_all ?P (snd (try_block t j url opts))"
      unfolding list_all_iff using try_block_request by blast
  qed simp_all
  then have "?P (FetchCall u request)"
    using assms unfolding list_all_iff fetchWithRetry_def by blast
  then obtain c where "u = url" and c: "request = with_signal opts c"
    by blast
  then show ?thesis
    by (auto simp: with_signal_def map_of_set_prop filter_set_prop)
qed

text \<open>The image proxy's kind of call, with a \<^verbatim>\<open>Referer\<close> header.\<close>

theorem options_passed_through_witness:
  "FetchCall ''https://x/y''
     [(''headers'', HeaderSet [(''Referer'', ''https://mangadex.org'')]),
      (''signal'', AbortSignal 0)]
     \<in> set (snd (fetchWithRetry quick_ok ''https://x/y'' (Some referer) None))
   \<and> map_of [(''headers'', HeaderSet [(''Referer'', ''https://mangadex.org'')]),
              (''signal'', AbortSignal 0)] ''headers'' = map_of referer ''headers''
   \<and> filter (\<lambda>p. fst p \<noteq> ''signal'')
        [(''headers'', HeaderSet [(''Referer'', ''https://mangadex.org'')]),
         (''signal'', AbortSignal 0)] = referer"
proof -
  let ?req = "[(''headers'', HeaderSet [(''Referer'', ''https://mangadex.org'')]),
               (''signal'', AbortSignal 0)]"
  have d: "default_arg [] (Some referer) = referer"
    by (simp add: default_arg_def)
  have m: "FetchCall ''https://x/y'' ?req
     \<in> set (snd (fetchWithRetry quick_ok ''https://x/y'' (Some referer) None))"
    by (simp add: run_defs quick_ok_def resp200_def referer_def)
  have f: "filter (\<lambda>p. fst p \<noteq> ''signal'') referer = referer"
    by (simp add: referer_def)
  note inst = options_passed_through [OF d m, THEN conjunct2, THEN conjunct2]
  have "''headers'' \<noteq> ''signal'' \<longrightarrow> map_of ?req ''headers'' = map_of referer ''headers''"
    by (rule inst [THEN conjunct1, THEN spec])
  then have h: "map_of ?req ''headers'' = map_of referer ''headers''"
    by simp
  have g: "filter (\<lambda>p. fst p \<noteq> ''signal'') ?req = referer"
    using inst [THEN conjunct2] f by (simp only:)
  show ?thesis by (intro conjI m h g)
qed

subsection \<open>The notices\<close>

text \<open>
  Claim C10. When the outcome is decided at attempt \<open>k\<close> (attempts 1 to \<open>k - 1\<close> fail,
  and attempt \<open>k\<close> succeeds or is the last one allowed), the call logs exactly \<open>k - 1\<close>
  notices. The \<open>j\<close>-th of them reads \<^verbatim>\<open>Retrying (j/retries)...\<close> and stands in the trace
  after attempt \<open>j\<close> and before attempt \<open>j + 1\<close>: one notice before each attempt after
  the first.
\<close>

theorem notices_before_retries:
  assumes "default_arg [] options = opts" and "default_arg 3 retries = n"
    and "0 < k" and "int k \<le> n"
    and "\<forall>j<k - 1. failure_kind 10000 (answer t url opts j) \<noteq> None"
    and "failure_kind 10000 (answer t url opts (k - 1)) = None \<or> int k = n"
  shows "snd (fetchWithRetry t url options retries) =
           concat (map (\<lambda>j. snd (try_block t j url opts) @
                          [ConsoleLog (''Retrying ('' @ show_int (int j + 1) @ ''/'' @
                                         show_int n @ '')...''), Sleep 2000]) [0..<k - 1])
           @ snd (try_block t (k - 1) url opts)
       \<and> filter is_notice (snd (fetchWithRetry t url options retries)) =
           map (\<lambda>j. ConsoleLog (''Retrying ('' @ show_int (int j + 1) @ ''/'' @
                                  show_int n @ '')...'')) [0..<k - 1]
       \<and> length (filter is_notice (snd (fetchWithRetry t url options retries))) = k - 1"
proof -
  obtain x evs where x: "try_block t (k - 1) url opts = (x, evs)"
    using try_block_shape by blast
  have run: "snd (retry_loop t url opts n 0 []) =
      concat (map (failed_round t url opts n) [0..<k - 1]) @ evs"
  proof (cases x)
    case (Inr r)
    with x assms(3,4,5) show ?thesis
      using retry_loop_first_success [of k n t url opts r evs] by simp
  next
    case (Inl e)
    have "failure_kind 10000 (answer t url opts (k - 1)) \<noteq> None"
    proof
      assume "failure_kind 10000 (answer t url opts (k - 1)) = None"
      then obtain d r where "answer t url opts (k - 1) = Responds d r" "d < 10000" "ok r"
        by (auto simp: failure_kind_None)
      then have "fst (try_block t (k - 1) url opts) = Inr r"
        using try_block_success by fastforce
      with x Inl show False by simp
    qed
    with assms(6) have kn: "int k = n" by blast
    then have "nat n - 1 = k - 1" by auto
    with x Inl assms(3,5) kn show ?thesis
      using retry_loop_exhausted [of n t url opts e evs] by simp
  qed
  have fr: "failed_round t url opts n = (\<lambda>j. snd (try_block t j url opts) @
                          [ConsoleLog (''Retrying ('' @ show_int (int j + 1) @ ''/'' @
                                         show_int n @ '')...''), Sleep 2000])"
    by (simp add: fun_eq_iff failed_round_def retry_notice_def)
  have rn: "(\<lambda>j. ConsoleLog (retry_notice j n)) =
            (\<lambda>j. ConsoleLog (''Retrying ('' @ show_int (int j + 1) @ ''/'' @
                                  show_int n @ '')...''))"
    by (simp add: fun_eq_iff retry_notice_def)
  have nt: "filter is_notice (snd (retry_loop t url opts n 0 [])) =
      map (\<lambda>j. ConsoleLog (retry_notice j n)) [0..<k - 1]"
    unfolding run using no_notice_try_block [of t "k - 1" url opts] x
    by (simp add: notices_rounds)
  show ?thesis
    unfolding fetchWithRetry_def assms(1,2)
    using run nt x unfolding fr rn by simp
qed

text \<open>Three attempts against a server that always answers 404: two notices.\<close>

theorem notices_before_retries_witness:
  "filter is_notice (snd (fetchWithRetry always_404 ''https://x/y'' None None)) =
     [ConsoleLog ''Retrying (1/3)...'', ConsoleLog ''Retrying (2/3)...'']
   \<and> length (filter is_notice (snd (fetchWithRetry always_404 ''https://x/y'' None None))) = 2"
proof -
  have d: "default_arg [] None = ([]::options)" "default_arg 3 None = (3::int)"
    by (simp_all add: default_arg_def)
  have k: "(0::nat) < 3" "int 3 \<le> 3" by simp_all
  have h: "\<forall>j<3 - 1. failure_kind 10000 (answer always_404 ''https://x/y'' [] j) \<noteq> None"
    by (simp add: answer_def always_404_def resp404_def)
  have l: "failure_kind 10000 (answer always_404 ''https://x/y'' [] (3 - 1)) = None \<or> int 3 = 3"
    by simp
  have n: "map (\<lambda>j. ConsoleLog (''Retrying ('' @ show_int (int j + 1) @ ''/'' @
                                  show_int 3 @ '')...'')) [0..<3 - 1] =
      [ConsoleLog ''Retrying (1/3)...'', ConsoleLog ''Retrying (2/3)...'']"
    by (simp add: show_int_def show_nat.simps upt_conv_Cons)
  note inst = notices_before_retries [OF d k h l, THEN conjunct2]
  show ?thesis
    using inst unfolding n by simp
qed

end
